theory Spec2Isabelle
  imports
    Main
    "HOL-Library.Finite_Map"
    "HOL-Library.Char_ord"
    "HOL-Library.List_Lexorder"
begin

section \<open>Connection details of composite resources\<close>

text \<open>
  A shallow embedding of \<^verbatim>\<open>internal/controller/apiextensions/composite/connection.go\<close>:
  the publisher chain, the fetcher chain, the secret-store publisher and fetcher, and the
  connection-details configurator. The \<^verbatim>\<open>context.Context\<close> argument is passed through
  unread by every function of the file and is left out.
\<close>

subsection \<open>Go values\<close>

text \<open>
  A \<^verbatim>\<open>[]byte\<close> is either the nil slice or a sequence of bytes (a \<open>char\<close> is a byte).
  A Go map is either the nil map (\<open>None\<close>) or a finite map; reading a key that is absent,
  or reading the nil map, gives the zero value of the element type; \<^verbatim>\<open>len\<close> of the nil
  map is 0 and a \<^verbatim>\<open>range\<close> loop over it runs no iteration.
\<close>

datatype byteslice = NilSlice | Bytes string

type_synonym ('k, 'v) gomap = "('k, 'v) fmap option"

definition index_bytes :: "(string, byteslice) gomap \<Rightarrow> string \<Rightarrow> byteslice" where
  "index_bytes m k =
     (case m of
        None \<Rightarrow> NilSlice
      | Some fm \<Rightarrow> (case fmlookup fm k of None \<Rightarrow> NilSlice | Some v \<Rightarrow> v))"

definition index_bool :: "(string, bool) fmap \<Rightarrow> string \<Rightarrow> bool" where
  "index_bool m k = (case fmlookup m k of None \<Rightarrow> False | Some b \<Rightarrow> b)"

definition len_map :: "('k, 'v) fmap \<Rightarrow> nat" where
  "len_map m = fcard (fmdom m)"

text \<open>
  A \<^verbatim>\<open>for k, v := range m\<close> loop runs its body once for every entry of the map. Go leaves
  the order of the iterations open; the model visits the entries by ascending key. Both
  loops of the file write, in each iteration, only the key the iteration visits, so their
  result is the same for any order (lemma \<open>fold_entries_any_order\<close> below).
\<close>

definition range_map :: "(string, 'v) gomap \<Rightarrow> (string \<Rightarrow> 'v \<Rightarrow> 's \<Rightarrow> 's) \<Rightarrow> 's \<Rightarrow> 's" where
  "range_map m body s =
     (case m of
        None \<Rightarrow> s
      | Some fm \<Rightarrow> fold (\<lambda>(k, v). body k v) (sorted_list_of_fmap fm) s)"

text \<open>The entries of a Go map: none for the nil map.\<close>

definition entries :: "('k, 'v) gomap \<Rightarrow> ('k, 'v) fmap" where
  "entries m = (case m of None \<Rightarrow> fmempty | Some fm \<Rightarrow> fm)"

subsection \<open>Errors\<close>

text \<open>
  The message constants of the package (\<^verbatim>\<open>errPublish\<close>, \<^verbatim>\<open>errFetchSecret\<close>, ...) are
  declared in another file; only their identity matters here, so each is a constructor.
  \<^verbatim>\<open>errors.Wrap\<close> of the nil error is the nil error.
\<close>

datatype ConnectionDetailType =
    ConnectionDetailTypeUnknown
  | ConnectionDetailTypeFromConnectionSecretKey
  | ConnectionDetailTypeFromFieldPath
  | ConnectionDetailTypeFromValue

datatype errconst =
    errPublish
  | errFetchSecret
  | errFmtConnDetailKey
  | errCompositionNotCompatible
  | errUpdateComposite

datatype error =
    External string
  | New errconst
  | Errorf errconst ConnectionDetailType
  | Wrapped error errconst

definition Wrap :: "error option \<Rightarrow> errconst \<Rightarrow> error option" where
  "Wrap err msg = (case err of None \<Rightarrow> None | Some e \<Rightarrow> Some (Wrapped e msg))"

subsection \<open>Data model\<close>

type_synonym ConnectionDetails = "(string, byteslice) gomap"

record ConnectionDetail =
  Name :: "string option"
  Type :: "ConnectionDetailType option"
  FromConnectionSecretKey :: "string option"

record ComposedTemplate =
  ConnectionDetails :: "ConnectionDetail list"

record Reference =
  Name :: string

record PublishConnectionDetailsTo =
  Name :: string
  SecretStoreConfigRef :: "Reference option"

record GroupVersionKind =
  Group :: string
  Version :: string
  Kind :: string

text \<open>
  A \<^verbatim>\<open>resource.ConnectionSecretOwner\<close> and a \<^verbatim>\<open>resource.Composite\<close>, as far as the file
  reads and writes them: the kind of the object, its UID and its publish destination.
\<close>

record Resource =
  ObjectKind :: GroupVersionKind
  UID :: string
  PublishConnectionDetailsTo :: "PublishConnectionDetailsTo option"

record TypeReference =
  APIVersion :: string
  Kind :: string

record CompositionSpec =
  CompositeTypeRef :: TypeReference
  PublishConnectionDetailsWithStoreConfig :: "string option"

record Composition =
  Spec :: CompositionSpec

subsection \<open>ConnectionDetailsFetcherChain\<close>

text \<open>
  A \<^verbatim>\<open>ConnectionDetailsFetcher\<close> is a function of the composed resource and the template
  that returns a mapping and an error. The chain starts from \<^verbatim>\<open>make(ConnectionDetails)\<close>,
  an empty map that is not nil, and returns it at the first error, before the mapping that
  came with the error is read.
\<close>

type_synonym 'cd ConnectionDetailsFetcher =
  "'cd \<Rightarrow> ComposedTemplate \<Rightarrow> ConnectionDetails \<times> error option"

fun ConnectionDetailsFetcherChain_loop ::
  "'cd ConnectionDetailsFetcher list \<Rightarrow> 'cd \<Rightarrow> ComposedTemplate \<Rightarrow>
   (string, byteslice) fmap \<Rightarrow> ConnectionDetails \<times> error option" where
  "ConnectionDetailsFetcherChain_loop [] cd t all = (Some all, None)"
| "ConnectionDetailsFetcherChain_loop (p # fc) cd t all =
     (case p cd t of
        (conn, Some err) \<Rightarrow> (Some all, Some err)
      | (conn, None) \<Rightarrow>
          ConnectionDetailsFetcherChain_loop fc cd t (range_map conn (\<lambda>k v all. fmupd k v all) all))"

definition ConnectionDetailsFetcherChain_FetchConnectionDetails ::
  "'cd ConnectionDetailsFetcher list \<Rightarrow> 'cd \<Rightarrow> ComposedTemplate \<Rightarrow>
   ConnectionDetails \<times> error option" where
  "ConnectionDetailsFetcherChain_FetchConnectionDetails fc cd t = ConnectionDetailsFetcherChain_loop fc cd t fmempty"

subsection \<open>ConnectionPublisherChain\<close>

text \<open>
  A \<^verbatim>\<open>ConnectionPublisher\<close> writes to a store: it is a function of the owner, the details
  and the state of the world that returns \<open>published\<close>, an error and the new state.
  The chain keeps \<open>published\<close> once any publisher has reported it, and returns at the
  first error with the state that publisher left.
\<close>

type_synonym 's ConnectionPublisher =
  "Resource \<Rightarrow> ConnectionDetails \<Rightarrow> 's \<Rightarrow> (bool \<times> error option) \<times> 's"

fun ConnectionPublisherChain_loop ::
  "'s ConnectionPublisher list \<Rightarrow> Resource \<Rightarrow> ConnectionDetails \<Rightarrow> bool \<Rightarrow> 's \<Rightarrow>
   (bool \<times> error option) \<times> 's" where
  "ConnectionPublisherChain_loop [] ow c published s = ((published, None), s)"
| "ConnectionPublisherChain_loop (p # pc) ow c published s =
     (case p ow c s of
        ((pb, err), s') \<Rightarrow>
          (let published' = (if pb then True else published)
           in case err of
                Some e \<Rightarrow> ((published', Some e), s')
              | None \<Rightarrow> ConnectionPublisherChain_loop pc ow c published' s'))"

definition ConnectionPublisherChain_PublishConnection ::
  "'s ConnectionPublisher list \<Rightarrow> Resource \<Rightarrow> ConnectionDetails \<Rightarrow> 's \<Rightarrow>
   (bool \<times> error option) \<times> 's" where
  "ConnectionPublisherChain_PublishConnection pc ow c s = ConnectionPublisherChain_loop pc ow c False s"

text \<open>
  For the claims about a chain: what each publisher reports and the state it leaves when
  the publishers are invoked one after the other, each on the state left by the one before.
\<close>

fun reports ::
  "'s ConnectionPublisher list \<Rightarrow> Resource \<Rightarrow> ConnectionDetails \<Rightarrow> 's \<Rightarrow>
   ((bool \<times> error option) \<times> 's) list" where
  "reports [] ow c s = []"
| "reports (p # pc) ow c s = p ow c s # reports pc ow c (snd (p ow c s))"

subsection \<open>SecretStoreConnectionPublisher\<close>

text \<open>
  The underlying \<^verbatim>\<open>managed.ConnectionPublisher\<close> returns an error only. The field
  \<^verbatim>\<open>filter\<close> is named \<open>filter'\<close>, as \<open>filter\<close> is a function on lists.
\<close>

type_synonym 's managed_ConnectionPublisher =
  "Resource \<Rightarrow> ConnectionDetails \<Rightarrow> 's \<Rightarrow> error option \<times> 's"

record 's SecretStoreConnectionPublisher =
  publisher :: "'s managed_ConnectionPublisher"
  filter' :: "string list"

definition filter_set :: "string list \<Rightarrow> (string, bool) fmap" where
  "filter_set keys = fold (\<lambda>key m. fmupd key True m) keys fmempty"

definition filtered_data :: "string list \<Rightarrow> ConnectionDetails \<Rightarrow> (string, byteslice) fmap" where
  "filtered_data keys c =
     (let m = filter_set keys
      in range_map c
           (\<lambda>key val data.
              if len_map m = 0 \<or> index_bool m key then fmupd key val data else data)
           fmempty)"

definition SecretStoreConnectionPublisher_PublishConnection ::
  "'s SecretStoreConnectionPublisher \<Rightarrow> Resource \<Rightarrow> ConnectionDetails \<Rightarrow> 's \<Rightarrow>
   (bool \<times> error option) \<times> 's" where
  "SecretStoreConnectionPublisher_PublishConnection p ow c s =
     (if PublishConnectionDetailsTo ow = None then ((False, None), s)
      else
        (let data = filtered_data (filter' p) c
         in case publisher p ow (Some data) s of
              (Some err, s') \<Rightarrow> ((False, Wrap (Some err) errPublish), s')
            | (None, s') \<Rightarrow> ((True, None), s')))"

subsection \<open>SecretStoreConnectionDetailsFetcher\<close>

text \<open>
  The type assertion \<^verbatim>\<open>cd.(resource.ConnectionSecretOwner)\<close> panics when the composed
  resource is not a connection secret owner: \<open>as_owner cd\<close> is \<open>None\<close> then, and the call
  does not return. The function \<^verbatim>\<open>connectionDetailType\<close> is declared in another file of
  the package and is a parameter, \<open>cdt\<close>. The underlying \<^verbatim>\<open>managed.ConnectionDetailsFetcher\<close>
  reads the store and returns the payload and an error.
\<close>

text \<open>
  Modelled from the spec: \<^verbatim>\<open>connectionDetailType\<close> is declared in another file of the
  package. The spec says that each declaration has a discriminated type (from-secret-key,
  from-field-path, from-value or unknown); the model reads the declared type, and gives
  unknown when none is declared. The fetcher takes the function as the parameter \<open>cdt\<close>, so
  what is proved about the fetcher holds for every such function; this one serves the
  concrete examples.
\<close>

definition connectionDetailType :: "ConnectionDetail \<Rightarrow> ConnectionDetailType" where
  "connectionDetailType d =
     (case Type d of None \<Rightarrow> ConnectionDetailTypeUnknown | Some tp \<Rightarrow> tp)"

datatype 'a outcome = Panics | Returns 'a

type_synonym 'so managed_ConnectionDetailsFetcher =
  "'so \<Rightarrow> ConnectionDetails \<times> error option"

fun fetch_loop ::
  "(ConnectionDetail \<Rightarrow> ConnectionDetailType) \<Rightarrow> ConnectionDetails \<Rightarrow> ConnectionDetail list \<Rightarrow>
   (string, byteslice) fmap \<Rightarrow> error + (string, byteslice) fmap" where
  "fetch_loop cdt data [] conn = Inr conn"
| "fetch_loop cdt data (d # ds) conn =
     (case cdt d of
        ConnectionDetailTypeFromConnectionSecretKey \<Rightarrow>
          (case FromConnectionSecretKey d of
             None \<Rightarrow> Inl (Errorf errFmtConnDetailKey (cdt d))
           | Some from_key \<Rightarrow>
               if data = None \<or> index_bytes data from_key = NilSlice
               then fetch_loop cdt data ds conn
               else
                 (let key = (case ConnectionDetail.Name d of Some n \<Rightarrow> n | None \<Rightarrow> from_key)
                  in if key \<noteq> []
                     then fetch_loop cdt data ds (fmupd key (index_bytes data from_key) conn)
                     else fetch_loop cdt data ds conn))
      | ConnectionDetailTypeFromFieldPath \<Rightarrow> fetch_loop cdt data ds conn
      | ConnectionDetailTypeFromValue \<Rightarrow> fetch_loop cdt data ds conn
      | ConnectionDetailTypeUnknown \<Rightarrow> fetch_loop cdt data ds conn)"

definition SecretStoreConnectionDetailsFetcher_FetchConnectionDetails ::
  "(ConnectionDetail \<Rightarrow> ConnectionDetailType) \<Rightarrow> ('cd \<Rightarrow> 'so option) \<Rightarrow>
   'so managed_ConnectionDetailsFetcher \<Rightarrow> 'cd \<Rightarrow> ComposedTemplate \<Rightarrow>
   (ConnectionDetails \<times> error option) outcome" where
  "SecretStoreConnectionDetailsFetcher_FetchConnectionDetails cdt as_owner fetcher cd t =
     (case as_owner cd of
        None \<Rightarrow> Panics
      | Some so \<Rightarrow>
          Returns
            (case fetcher so of
               (data, Some err) \<Rightarrow> (None, Wrap (Some err) errFetchSecret)
             | (data, None) \<Rightarrow>
                 (case fetch_loop cdt data (ConnectionDetails t) fmempty of
                    Inl e \<Rightarrow> (None, Some e)
                  | Inr conn \<Rightarrow> if len_map conn = 0 then (None, None) else (Some conn, None))))"

subsection \<open>ConnectionDetailsConfigurator\<close>

text \<open>
  \<^verbatim>\<open>GroupVersionKind.ToAPIVersionAndKind\<close> is a function of the Kubernetes library: both
  strings are empty for the empty kind, and the API version is the version alone when the
  group is empty. \<^verbatim>\<open>client.Update\<close> persists the composite resource; it is a function of
  the resource and the state of the API server that returns an error and the new state.
\<close>

definition ToAPIVersionAndKind :: "GroupVersionKind \<Rightarrow> string \<times> string" where
  "ToAPIVersionAndKind gvk =
     (if Group gvk = [] \<and> Version gvk = [] \<and> GroupVersionKind.Kind gvk = [] then ([], [])
      else ((if Group gvk \<noteq> [] then Group gvk @ ''/'' @ Version gvk else Version gvk),
            GroupVersionKind.Kind gvk))"

type_synonym 'c client_Update = "Resource \<Rightarrow> 'c \<Rightarrow> error option \<times> 'c"

definition Configure ::
  "'c client_Update \<Rightarrow> Resource \<Rightarrow> Composition \<Rightarrow> 'c \<Rightarrow> (error option \<times> Resource) \<times> 'c" where
  "Configure update cp cmp s =
     (case ToAPIVersionAndKind (ObjectKind cp) of
        (apiVersion, kind) \<Rightarrow>
          if APIVersion (CompositeTypeRef (Spec cmp)) \<noteq> apiVersion
             \<or> TypeReference.Kind (CompositeTypeRef (Spec cmp)) \<noteq> kind
          then ((Some (New errCompositionNotCompatible), cp), s)
          else if PublishConnectionDetailsTo cp \<noteq> None
                  \<or> PublishConnectionDetailsWithStoreConfig (Spec cmp) = None
          then ((None, cp), s)
          else
            (let cp' = cp\<lparr>PublishConnectionDetailsTo :=
                           Some \<lparr>PublishConnectionDetailsTo.Name = UID cp,
                                 SecretStoreConfigRef =
                                   Some \<lparr>Reference.Name =
                                     the (PublishConnectionDetailsWithStoreConfig (Spec cmp))\<rparr>\<rparr>\<rparr>
             in case update cp' s of
                  (err, s') \<Rightarrow> ((Wrap err errUpdateComposite, cp'), s')))"

section \<open>Properties\<close>

subsection \<open>Range loops over maps\<close>

lemma fold_entries_lookup:
  "distinct (map fst xs) \<Longrightarrow>
   fmlookup (fold (\<lambda>(k, v) d. if P k then fmupd k v d else d) xs a) x =
     (if P x then (case map_of xs x of Some v \<Rightarrow> Some v | None \<Rightarrow> fmlookup a x)
      else fmlookup a x)"
proof (induction xs arbitrary: a)
  case Nil
  then show ?case by simp
next
  case (Cons e xs)
  obtain k v where e: "e = (k, v)" by (cases e)
  from Cons.prems e have k: "map_of xs k = None" and d: "distinct (map fst xs)"
    by (auto simp: map_of_eq_None_iff)
  show ?case
    using k by (auto simp: e Cons.IH [OF d] split: option.splits)
qed

lemma fold_entries_any_order:
  assumes "distinct (map fst xs)" "distinct (map fst ys)" "set xs = set ys"
  shows "fold (\<lambda>(k, v) d. if P k then fmupd k v d else d) xs a =
         fold (\<lambda>(k, v) d. if P k then fmupd k v d else d) ys a"
proof (rule fmap_ext)
  fix x
  have "map_of xs = map_of ys"
    using assms by (simp add: map_of_inject_set)
  then show "fmlookup (fold (\<lambda>(k, v) d. if P k then fmupd k v d else d) xs a) x =
             fmlookup (fold (\<lambda>(k, v) d. if P k then fmupd k v d else d) ys a) x"
    by (simp add: fold_entries_lookup assms)
qed

lemma distinct_sorted_list_of_fmap: "distinct (map fst (sorted_list_of_fmap m))"
  by (simp add: sorted_list_of_fmap_def comp_def sorted_list_of_fset.rep_eq)

lemma range_map_filter:
  "range_map m (\<lambda>k v d. if P k then fmupd k v d else d) a = a ++\<^sub>f fmfilter P (entries m)"
proof (cases m)
  case None
  then show ?thesis by (simp add: range_map_def entries_def cong del: fmfilter_cong)
next
  case (Some fm)
  show ?thesis
  proof (rule fmap_ext)
    fix x
    show "fmlookup (range_map m (\<lambda>k v d. if P k then fmupd k v d else d) a) x =
          fmlookup (a ++\<^sub>f fmfilter P (entries m)) x"
      by (auto simp: Some range_map_def entries_def fold_entries_lookup
            distinct_sorted_list_of_fmap fmdom_notI fmlookup_dom_iff split: option.splits)
  qed
qed

lemma range_map_merge:
  "range_map m (\<lambda>k v d. fmupd k v d) a = a ++\<^sub>f entries m"
  using range_map_filter [of m "\<lambda>_. True" a] by simp

subsection \<open>The fetcher chain merges in order\<close>

lemma ConnectionDetailsFetcherChain_loop_ok:
  "map (\<lambda>p. p cd t) fc = map (\<lambda>M. (M, None)) Ms \<Longrightarrow>
   ConnectionDetailsFetcherChain_loop fc cd t all = (Some (fold (\<lambda>M a. a ++\<^sub>f entries M) Ms all), None)"
proof (induction fc arbitrary: Ms all)
  case Nil
  then show ?case by simp
next
  case (Cons p fc)
  then obtain M Ms' where Ms: "Ms = M # Ms'" by (cases Ms) auto
  with Cons.prems have p: "p cd t = (M, None)"
    and rest: "map (\<lambda>p. p cd t) fc = map (\<lambda>M. (M, None)) Ms'" by auto
  show ?case
    by (simp add: p Ms range_map_merge Cons.IH [OF rest])
qed

lemma ConnectionDetailsFetcherChain_loop_err:
  "map (\<lambda>p. p cd t) pre = map (\<lambda>M. (M, None)) Ms \<Longrightarrow> p cd t = (Mi, Some e) \<Longrightarrow>
   ConnectionDetailsFetcherChain_loop (pre @ p # post) cd t all =
     (Some (fold (\<lambda>M a. a ++\<^sub>f entries M) Ms all), Some e)"
proof (induction pre arbitrary: Ms all)
  case Nil
  then show ?case by simp
next
  case (Cons q pre)
  then obtain M Ms' where Ms: "Ms = M # Ms'" by (cases Ms) auto
  with Cons.prems have q: "q cd t = (M, None)"
    and rest: "map (\<lambda>p. p cd t) pre = map (\<lambda>M. (M, None)) Ms'" by auto
  show ?case
    by (simp add: q Ms range_map_merge Cons.IH [OF rest Cons.prems(2)])
qed

lemma merged_dom:
  "k |\<in>| fmdom (fold (\<lambda>M a. a ++\<^sub>f entries M) Ms all) \<longleftrightarrow>
     k |\<in>| fmdom all \<or> (\<exists>M\<in>set Ms. k |\<in>| fmdom (entries M))"
  by (induction Ms arbitrary: all) auto

lemma merged_lookup_later:
  "\<forall>M\<in>set Ms. k |\<notin>| fmdom (entries M) \<Longrightarrow>
   fmlookup (fold (\<lambda>M a. a ++\<^sub>f entries M) Ms all) k = fmlookup all k"
  by (induction Ms arbitrary: all) (auto simp: fmdom_notD)

lemma merged_lookup_split:
  "k |\<in>| fmdom (entries M) \<Longrightarrow> \<forall>M'\<in>set post. k |\<notin>| fmdom (entries M') \<Longrightarrow>
   fmlookup (fold (\<lambda>M a. a ++\<^sub>f entries M) (pre @ M # post) all) k = fmlookup (entries M) k"
  by (simp add: merged_lookup_later)

lemma merged_lookup:
  assumes "i < length Ms" "k |\<in>| fmdom (entries (Ms ! i))"
    and "\<forall>j<length Ms. i < j \<longrightarrow> k |\<notin>| fmdom (entries (Ms ! j))"
  shows "fmlookup (fold (\<lambda>M a. a ++\<^sub>f entries M) Ms all) k = fmlookup (entries (Ms ! i)) k"
proof -
  have split: "Ms = take i Ms @ Ms ! i # drop (Suc i) Ms"
    using assms(1) by (rule id_take_nth_drop)
  have later: "\<forall>M'\<in>set (drop (Suc i) Ms). k |\<notin>| fmdom (entries M')"
  proof
    fix M' assume "M' \<in> set (drop (Suc i) Ms)"
    then obtain n where n: "n < length Ms - Suc i" "M' = drop (Suc i) Ms ! n"
      by (auto simp: in_set_conv_nth)
    then have "M' = Ms ! (Suc i + n)" using assms(1) by simp
    moreover have "Suc i + n < length Ms" "i < Suc i + n" using n(1) by simp_all
    ultimately show "k |\<notin>| fmdom (entries M')" using assms(3) by blast
  qed
  show ?thesis
    by (subst split) (rule merged_lookup_split [OF assms(2) later])
qed

subsection \<open>Claims about the fetcher chain\<close>

text \<open>
  C10: the fetcher chain never returns the nil mapping. With no fetcher, and when every
  fetcher returns the nil mapping and no error, its result is the empty mapping that
  \<^verbatim>\<open>make\<close> created, with no error.
\<close>

theorem fetcher_chain_never_nil:
  "fst (ConnectionDetailsFetcherChain_FetchConnectionDetails fc cd t) \<noteq> None
   \<and> ConnectionDetailsFetcherChain_FetchConnectionDetails [] cd t = (Some fmempty, None)
   \<and> ((\<forall>p\<in>set fc. p cd t = (None, None)) \<longrightarrow>
        ConnectionDetailsFetcherChain_FetchConnectionDetails fc cd t = (Some fmempty, None))"
proof -
  have a: "fst (ConnectionDetailsFetcherChain_loop fc cd t all) \<noteq> None" for all
    by (induction fc arbitrary: all) (auto split: prod.splits option.splits)
  have b: "\<forall>p\<in>set fc. p cd t = (None, None) \<Longrightarrow>
           ConnectionDetailsFetcherChain_loop fc cd t all = (Some all, None)" for all
    by (induction fc arbitrary: all) (simp_all add: range_map_def)
  show ?thesis
    using a b by (simp add: ConnectionDetailsFetcherChain_FetchConnectionDetails_def)
qed

theorem fetcher_chain_never_nil_witness:
  "ConnectionDetailsFetcherChain_FetchConnectionDetails
     [\<lambda>cd t. (None, None), \<lambda>cd t. (None, None)] () \<lparr>ConnectionDetails = []\<rparr>
   = (Some fmempty, None)"
  using fetcher_chain_never_nil
    [of "[\<lambda>cd t. (None, None), \<lambda>cd t. (None, None)]" "()" "\<lparr>ConnectionDetails = []\<rparr>"]
  by simp

text \<open>
  C4: when the fetchers of the chain return the mappings \<open>Ms\<close>, in this order, and no
  error, the chain returns no error and a mapping whose keys are the keys of all the
  \<open>Ms\<close>; at a key, its value is the value of the mapping with the highest index that
  has the key.
\<close>

theorem fetcher_chain_last_wins:
  assumes "map (\<lambda>p. p cd t) fc = map (\<lambda>M. (M, None)) Ms"
  shows "\<exists>U. ConnectionDetailsFetcherChain_FetchConnectionDetails fc cd t = (Some U, None)
     \<and> (\<forall>k. (k |\<in>| fmdom U \<longleftrightarrow> (\<exists>i<length Ms. k |\<in>| fmdom (entries (Ms ! i))))
          \<and> (\<forall>i<length Ms.
               k |\<in>| fmdom (entries (Ms ! i))
               \<and> (\<forall>j<length Ms. i < j \<longrightarrow> k |\<notin>| fmdom (entries (Ms ! j)))
               \<longrightarrow> fmlookup U k = fmlookup (entries (Ms ! i)) k))"
proof -
  let ?U = "fold (\<lambda>M a. a ++\<^sub>f entries M) Ms fmempty"
  have run: "ConnectionDetailsFetcherChain_FetchConnectionDetails fc cd t = (Some ?U, None)"
    unfolding ConnectionDetailsFetcherChain_FetchConnectionDetails_def
    by (rule ConnectionDetailsFetcherChain_loop_ok [OF assms])
  have dom: "k |\<in>| fmdom ?U \<longleftrightarrow> (\<exists>i<length Ms. k |\<in>| fmdom (entries (Ms ! i)))" for k
    by (simp add: merged_dom) (metis in_set_conv_nth)
  have val: "fmlookup ?U k = fmlookup (entries (Ms ! i)) k"
    if "i < length Ms" "k |\<in>| fmdom (entries (Ms ! i))"
      "\<forall>j<length Ms. i < j \<longrightarrow> k |\<notin>| fmdom (entries (Ms ! j))" for k i
    using that by (rule merged_lookup)
  show ?thesis
    using run dom val by blast
qed

theorem fetcher_chain_last_wins_witness:
  "\<exists>U. ConnectionDetailsFetcherChain_FetchConnectionDetails
          [\<lambda>cd t. (Some (fmupd ''a'' (Bytes ''1'') (fmupd ''b'' (Bytes ''2'') fmempty)), None),
           \<lambda>cd t. (Some (fmupd ''b'' (Bytes ''3'') (fmupd ''c'' (Bytes ''4'') fmempty)), None)]
          () \<lparr>ConnectionDetails = []\<rparr> = (Some U, None)
      \<and> fmlookup U ''a'' = Some (Bytes ''1'')
      \<and> fmlookup U ''b'' = Some (Bytes ''3'')"
proof -
  let ?M1 = "Some (fmupd ''a'' (Bytes ''1'') (fmupd ''b'' (Bytes ''2'') fmempty))"
  let ?M2 = "Some (fmupd ''b'' (Bytes ''3'') (fmupd ''c'' (Bytes ''4'') fmempty))"
  let ?fc = "[\<lambda>cd t. (?M1, None), \<lambda>cd t. (?M2, None)]
               :: unit ConnectionDetailsFetcher list"
  let ?t = "\<lparr>ConnectionDetails = []\<rparr>"
  have h: "map (\<lambda>p. p () ?t) ?fc = map (\<lambda>M. (M, None)) [?M1, ?M2]" by simp
  from fetcher_chain_last_wins [OF h] obtain U where
    run: "ConnectionDetailsFetcherChain_FetchConnectionDetails ?fc () ?t = (Some U, None)"
    and val: "\<And>k i. i < length [?M1, ?M2] \<Longrightarrow> k |\<in>| fmdom (entries ([?M1, ?M2] ! i)) \<Longrightarrow>
               (\<forall>j<length [?M1, ?M2]. i < j \<longrightarrow> k |\<notin>| fmdom (entries ([?M1, ?M2] ! j))) \<Longrightarrow>
               fmlookup U k = fmlookup (entries ([?M1, ?M2] ! i)) k"
    by blast
  have a: "fmlookup U ''a'' = Some (Bytes ''1'')"
    using val [of 0 "''a''"] by (simp add: entries_def less_Suc_eq)
  have b: "fmlookup U ''b'' = Some (Bytes ''3'')"
    using val [of 1 "''b''"] by (simp add: entries_def)
  show ?thesis using run a b by blast
qed

text \<open>
  C1 says that at an error the chain returns the merge of the earlier mappings merged with
  the mapping that came with the error. The chain returns before it reads that mapping: a
  single fetcher that returns \<open>{a: 1}\<close> and an error gives the empty mapping.
\<close>

theorem fetcher_chain_error_counterexample:
  "ConnectionDetailsFetcherChain_FetchConnectionDetails
     [\<lambda>cd t. (Some (fmupd ''a'' (Bytes ''1'') fmempty), Some (External ''boom''))]
     () \<lparr>ConnectionDetails = []\<rparr>
   = (Some fmempty, Some (External ''boom''))
   \<and> (fmempty :: (string, byteslice) fmap)
       \<noteq> fmempty ++\<^sub>f entries (Some (fmupd ''a'' (Bytes ''1'') fmempty))"
  by (simp add: ConnectionDetailsFetcherChain_FetchConnectionDetails_def entries_def)

text \<open>
  C1, amended: when the fetchers before the failing one return the mappings \<open>Ms\<close>, in
  this order, and no error, and the next fetcher returns an error, the chain returns that
  error and the last-wins merge of \<open>Ms\<close> alone; the mapping \<open>Mi\<close> that came with the
  error and the fetchers after it have no part in the result.
\<close>

theorem fetcher_chain_error_partial:
  assumes "map (\<lambda>p. p cd t) pre = map (\<lambda>M. (M, None)) Ms"
    and "p cd t = (Mi, Some e)"
  shows "\<exists>U. ConnectionDetailsFetcherChain_FetchConnectionDetails (pre @ p # post) cd t = (Some U, Some e)
     \<and> (\<forall>k. (k |\<in>| fmdom U \<longleftrightarrow> (\<exists>i<length Ms. k |\<in>| fmdom (entries (Ms ! i))))
          \<and> (\<forall>i<length Ms.
               k |\<in>| fmdom (entries (Ms ! i))
               \<and> (\<forall>j<length Ms. i < j \<longrightarrow> k |\<notin>| fmdom (entries (Ms ! j)))
               \<longrightarrow> fmlookup U k = fmlookup (entries (Ms ! i)) k))"
proof -
  let ?U = "fold (\<lambda>M a. a ++\<^sub>f entries M) Ms fmempty"
  have run: "ConnectionDetailsFetcherChain_FetchConnectionDetails (pre @ p # post) cd t = (Some ?U, Some e)"
    unfolding ConnectionDetailsFetcherChain_FetchConnectionDetails_def
    using assms by (rule ConnectionDetailsFetcherChain_loop_err [where Mi = Mi])
  have dom: "k |\<in>| fmdom ?U \<longleftrightarrow> (\<exists>i<length Ms. k |\<in>| fmdom (entries (Ms ! i)))" for k
    by (simp add: merged_dom) (metis in_set_conv_nth)
  have val: "fmlookup ?U k = fmlookup (entries (Ms ! i)) k"
    if "i < length Ms" "k |\<in>| fmdom (entries (Ms ! i))"
      "\<forall>j<length Ms. i < j \<longrightarrow> k |\<notin>| fmdom (entries (Ms ! j))" for k i
    using that by (rule merged_lookup)
  show ?thesis
    using run dom val by blast
qed

theorem fetcher_chain_error_partial_witness:
  "\<exists>U. ConnectionDetailsFetcherChain_FetchConnectionDetails
          [\<lambda>cd t. (Some (fmupd ''a'' (Bytes ''1'') fmempty), None),
           \<lambda>cd t. (Some (fmupd ''b'' (Bytes ''2'') fmempty), Some (External ''boom'')),
           \<lambda>cd t. (Some (fmupd ''c'' (Bytes ''3'') fmempty), None)]
          () \<lparr>ConnectionDetails = []\<rparr> = (Some U, Some (External ''boom''))
      \<and> fmlookup U ''a'' = Some (Bytes ''1'')
      \<and> ''b'' |\<notin>| fmdom U \<and> ''c'' |\<notin>| fmdom U"
proof -
  let ?M1 = "Some (fmupd ''a'' (Bytes ''1'') fmempty)"
  let ?M2 = "Some (fmupd ''b'' (Bytes ''2'') fmempty)"
  let ?M3 = "Some (fmupd ''c'' (Bytes ''3'') fmempty)"
  let ?pre = "[\<lambda>cd t. (?M1, None)] :: unit ConnectionDetailsFetcher list"
  let ?p = "(\<lambda>cd t. (?M2, Some (External ''boom''))) :: unit ConnectionDetailsFetcher"
  let ?post = "[\<lambda>cd t. (?M3, None)] :: unit ConnectionDetailsFetcher list"
  let ?t = "\<lparr>ConnectionDetails = []\<rparr>"
  have h: "map (\<lambda>p. p () ?t) ?pre = map (\<lambda>M. (M, None)) [?M1]" by simp
  have e: "?p () ?t = (?M2, Some (External ''boom''))" by simp
  from fetcher_chain_error_partial
         [where pre = ?pre and p = ?p and post = ?post and cd = "()" and t = ?t
            and Ms = "[?M1]" and Mi = ?M2 and e = "External ''boom''", OF h e]
  obtain U where
    run: "ConnectionDetailsFetcherChain_FetchConnectionDetails (?pre @ ?p # ?post) () ?t
            = (Some U, Some (External ''boom''))"
    and dom: "\<And>k. k |\<in>| fmdom U \<longleftrightarrow> (\<exists>i<length [?M1]. k |\<in>| fmdom (entries ([?M1] ! i)))"
    and val: "\<And>k i. i < length [?M1] \<Longrightarrow> k |\<in>| fmdom (entries ([?M1] ! i)) \<Longrightarrow>
               (\<forall>j<length [?M1]. i < j \<longrightarrow> k |\<notin>| fmdom (entries ([?M1] ! j))) \<Longrightarrow>
               fmlookup U k = fmlookup (entries ([?M1] ! i)) k"
    by blast
  have a: "fmlookup U ''a'' = Some (Bytes ''1'')"
    using val [of 0 "''a''"] by (simp add: entries_def)
  have b: "''b'' |\<notin>| fmdom U" "''c'' |\<notin>| fmdom U"
    using dom by (simp_all add: entries_def)
  show ?thesis using run a b by simp
qed

subsection \<open>Claims about the publisher chain\<close>

lemma length_reports: "length (reports pc ow c s) = length pc"
  by (induction pc arbitrary: s) simp_all

lemma reports_take: "reports (take n pc) ow c s = take n (reports pc ow c s)"
proof (induction pc arbitrary: n s)
  case Nil
  then show ?case by simp
next
  case (Cons p pc)
  then show ?case by (cases n) simp_all
qed

lemma ConnectionPublisherChain_loop_ok:
  "\<forall>r\<in>set (reports pc ow c s). snd (fst r) = None \<Longrightarrow>
   ConnectionPublisherChain_loop pc ow c pub s =
     ((pub \<or> (\<exists>r\<in>set (reports pc ow c s). fst (fst r)), None),
      last (s # map snd (reports pc ow c s)))"
proof (induction pc arbitrary: pub s)
  case Nil
  then show ?case by simp
next
  case (Cons p pc)
  obtain pb err s' where p: "p ow c s = ((pb, err), s')"
    by (metis surj_pair)
  with Cons.prems have err: "err = None"
    and rest: "\<forall>r\<in>set (reports pc ow c s'). snd (fst r) = None" by simp_all
  show ?case
    by (auto simp: p err Cons.IH [OF rest])
qed

lemma ConnectionPublisherChain_loop_err:
  "i < length pc \<Longrightarrow> \<forall>j<i. snd (fst (reports pc ow c s ! j)) = None \<Longrightarrow>
   snd (fst (reports pc ow c s ! i)) = Some e \<Longrightarrow>
   ConnectionPublisherChain_loop pc ow c pub s =
     ((pub \<or> (\<exists>j<Suc i. fst (fst (reports pc ow c s ! j))), Some e),
      snd (reports pc ow c s ! i))"
proof (induction pc arbitrary: i pub s)
  case Nil
  then show ?case by simp
next
  case (Cons p pc)
  obtain pb err s' where p: "p ow c s = ((pb, err), s')"
    by (metis surj_pair)
  show ?case
  proof (cases i)
    case 0
    with Cons.prems(3) p have "err = Some e" by simp
    then show ?thesis by (simp add: p 0)
  next
    case (Suc n)
    from Cons.prems(2) Suc p have err: "err = None" by auto
    from Cons.prems(1) Suc have n: "n < length pc" by simp
    from Cons.prems(2) Suc p have before: "\<forall>j<n. snd (fst (reports pc ow c s' ! j)) = None"
      by auto
    from Cons.prems(3) Suc p have at: "snd (fst (reports pc ow c s' ! n)) = Some e" by simp
    have ex: "(\<exists>j<Suc (Suc n). fst (fst (reports (p # pc) ow c s ! j)))
              \<longleftrightarrow> pb \<or> (\<exists>j<Suc n. fst (fst (reports pc ow c s' ! j)))"
      by (subst Ex_less_Suc2) (simp add: p)
    show ?thesis
      unfolding Suc ex
      by (auto simp: p err Cons.IH [OF n before at])
  qed
qed

text \<open>
  C6: when no publisher of the chain returns an error, the chain returns no error, and
  \<open>published\<close> exactly when some publisher reported it, in the state the last publisher
  left. When the publisher at index \<open>i\<close> is the first to return an error, the chain returns
  that error, \<open>published\<close> exactly when one of the publishers up to \<open>i\<close> reported it, and
  the state that publisher \<open>i\<close> left: the writes of the publishers up to \<open>i\<close> stay, and the
  publishers after \<open>i\<close> are not invoked (the chain cut after \<open>i\<close> gives the same result).
\<close>

theorem publisher_chain_aggregates:
  "((\<forall>r\<in>set (reports pc ow c s). snd (fst r) = None) \<longrightarrow>
      ConnectionPublisherChain_PublishConnection pc ow c s =
        (((\<exists>r\<in>set (reports pc ow c s). fst (fst r)), None),
         last (s # map snd (reports pc ow c s))))
   \<and> (\<forall>i e. i < length pc
          \<and> (\<forall>j<i. snd (fst (reports pc ow c s ! j)) = None)
          \<and> snd (fst (reports pc ow c s ! i)) = Some e \<longrightarrow>
        ConnectionPublisherChain_PublishConnection pc ow c s =
          (((\<exists>j\<le>i. fst (fst (reports pc ow c s ! j))), Some e), snd (reports pc ow c s ! i))
        \<and> ConnectionPublisherChain_PublishConnection pc ow c s =
            ConnectionPublisherChain_PublishConnection (take (Suc i) pc) ow c s)"
proof (intro conjI impI allI)
  assume "\<forall>r\<in>set (reports pc ow c s). snd (fst r) = None"
  then show "ConnectionPublisherChain_PublishConnection pc ow c s =
        (((\<exists>r\<in>set (reports pc ow c s). fst (fst r)), None),
         last (s # map snd (reports pc ow c s)))"
    by (simp add: ConnectionPublisherChain_PublishConnection_def ConnectionPublisherChain_loop_ok)
next
  fix i e
  assume h: "i < length pc
          \<and> (\<forall>j<i. snd (fst (reports pc ow c s ! j)) = None)
          \<and> snd (fst (reports pc ow c s ! i)) = Some e"
  then have i: "i < length pc" and before: "\<forall>j<i. snd (fst (reports pc ow c s ! j)) = None"
    and at: "snd (fst (reports pc ow c s ! i)) = Some e" by simp_all
  have whole: "ConnectionPublisherChain_PublishConnection pc ow c s =
          (((\<exists>j\<le>i. fst (fst (reports pc ow c s ! j))), Some e), snd (reports pc ow c s ! i))"
    by (simp add: ConnectionPublisherChain_PublishConnection_def
          ConnectionPublisherChain_loop_err [OF i before at] less_Suc_eq_le)
  show "ConnectionPublisherChain_PublishConnection pc ow c s =
          (((\<exists>j\<le>i. fst (fst (reports pc ow c s ! j))), Some e), snd (reports pc ow c s ! i))"
    by (rule whole)
  have i': "i < length (take (Suc i) pc)" using i by simp
  have before': "\<forall>j<i. snd (fst (reports (take (Suc i) pc) ow c s ! j)) = None"
    using before by (simp add: reports_take)
  have at': "snd (fst (reports (take (Suc i) pc) ow c s ! i)) = Some e"
    using at by (simp add: reports_take)
  have same: "(\<exists>j<Suc i. fst (fst (take (Suc i) (reports pc ow c s) ! j)))
              \<longleftrightarrow> (\<exists>j\<le>i. fst (fst (reports pc ow c s ! j)))"
    by (auto simp: less_Suc_eq_le)
  have "ConnectionPublisherChain_PublishConnection (take (Suc i) pc) ow c s =
          (((\<exists>j\<le>i. fst (fst (reports pc ow c s ! j))), Some e), snd (reports pc ow c s ! i))"
    unfolding ConnectionPublisherChain_PublishConnection_def
      ConnectionPublisherChain_loop_err [OF i' before' at'] reports_take same
    by simp
  with whole show "ConnectionPublisherChain_PublishConnection pc ow c s =
            ConnectionPublisherChain_PublishConnection (take (Suc i) pc) ow c s" by simp
qed

theorem publisher_chain_aggregates_witness:
  "ConnectionPublisherChain_PublishConnection
     [\<lambda>ow c s. ((False, None), s @ [''p1'']), \<lambda>ow c s. ((True, None), s @ [''p2''])]
     \<lparr>ObjectKind = \<lparr>Group = '''', Version = ''v1'', Kind = ''XR''\<rparr>, UID = ''u1'',
      PublishConnectionDetailsTo = None\<rparr> None []
   = ((True, None), [''p1'', ''p2''])
   \<and> ConnectionPublisherChain_PublishConnection
     [\<lambda>ow c s. ((False, None), s @ [''p1'']), \<lambda>ow c s. ((True, None), s @ [''p2'']),
      \<lambda>ow c s. ((False, Some (External ''boom'')), s @ [''p3'']),
      \<lambda>ow c s. ((True, None), s @ [''p4''])]
     \<lparr>ObjectKind = \<lparr>Group = '''', Version = ''v1'', Kind = ''XR''\<rparr>, UID = ''u1'',
      PublishConnectionDetailsTo = None\<rparr> None []
   = ((True, Some (External ''boom'')), [''p1'', ''p2'', ''p3''])"
proof -
  let ?ow = "\<lparr>ObjectKind = \<lparr>Group = '''', Version = ''v1'', Kind = ''XR''\<rparr>, UID = ''u1'',
      PublishConnectionDetailsTo = None\<rparr>"
  let ?p1 = "(\<lambda>ow c s. ((False, None), s @ [''p1''])) :: string list ConnectionPublisher"
  let ?p2 = "(\<lambda>ow c s. ((True, None), s @ [''p2''])) :: string list ConnectionPublisher"
  let ?p3 = "(\<lambda>ow c s. ((False, Some (External ''boom'')), s @ [''p3'']))
               :: string list ConnectionPublisher"
  let ?p4 = "(\<lambda>ow c s. ((True, None), s @ [''p4''])) :: string list ConnectionPublisher"
  have ok: "\<forall>r\<in>set (reports [?p1, ?p2] ?ow None []). snd (fst r) = None" by simp
  have a: "ConnectionPublisherChain_PublishConnection [?p1, ?p2] ?ow None []
             = ((True, None), [''p1'', ''p2''])"
    using publisher_chain_aggregates [of "[?p1, ?p2]" ?ow None "[]"] ok by simp
  have i: "(2::nat) < length [?p1, ?p2, ?p3, ?p4]" by simp
  have before: "\<forall>j<2. snd (fst (reports [?p1, ?p2, ?p3, ?p4] ?ow None [] ! j)) = None"
    by (simp add: less_Suc_eq numeral_2_eq_2)
  have at: "snd (fst (reports [?p1, ?p2, ?p3, ?p4] ?ow None [] ! 2)) = Some (External ''boom'')"
    by (simp add: numeral_2_eq_2)
  have ex: "\<exists>j\<le>2. fst (fst (reports [?p1, ?p2, ?p3, ?p4] ?ow None [] ! j))"
    by (rule exI [of _ 1]) simp
  have step: "ConnectionPublisherChain_PublishConnection [?p1, ?p2, ?p3, ?p4] ?ow None []
             = (((\<exists>j\<le>2. fst (fst (reports [?p1, ?p2, ?p3, ?p4] ?ow None [] ! j))),
                 Some (External ''boom'')),
                snd (reports [?p1, ?p2, ?p3, ?p4] ?ow None [] ! 2))"
    using publisher_chain_aggregates [of "[?p1, ?p2, ?p3, ?p4]" ?ow None "[]"]
      i before at
    by blast
  have b: "ConnectionPublisherChain_PublishConnection [?p1, ?p2, ?p3, ?p4] ?ow None []
             = ((True, Some (External ''boom'')), [''p1'', ''p2'', ''p3''])"
    unfolding step using ex by (simp add: numeral_2_eq_2)
  show ?thesis using a b by simp
qed

subsection \<open>Claims about the secret-store publisher\<close>

lemma filter_set_lookup:
  "fmlookup (fold (\<lambda>key m. fmupd key True m) keys m0) k =
     (if k \<in> set keys then Some True else fmlookup m0 k)"
  by (induction keys arbitrary: m0) auto

lemma index_bool_filter_set: "index_bool (filter_set keys) k \<longleftrightarrow> k \<in> set keys"
  by (simp add: index_bool_def filter_set_def filter_set_lookup)

lemma fmdom_filter_set: "fmdom (filter_set keys) = fset_of_list keys"
proof -
  have "k |\<in>| fmdom (filter_set keys) \<longleftrightarrow> k |\<in>| fset_of_list keys" for k
    by (auto simp: filter_set_def fmlookup_dom_iff filter_set_lookup fset_of_list_elem)
  then show ?thesis by blast
qed

lemma len_filter_set: "len_map (filter_set keys) = 0 \<longleftrightarrow> keys = []"
proof -
  have "fcard (fset_of_list keys) = 0 \<longleftrightarrow> fset_of_list keys = {||}"
    by simp
  also have "\<dots> \<longleftrightarrow> keys = []"
    by (cases keys) auto
  finally show ?thesis by (simp add: len_map_def fmdom_filter_set)
qed

lemma filtered_data_eq:
  "filtered_data keys c = fmfilter (\<lambda>k. keys = [] \<or> k \<in> set keys) (entries c)"
  by (simp add: filtered_data_def Let_def len_filter_set index_bool_filter_set range_map_filter)

text \<open>
  C5: for an owner with no publish destination, whatever the details, the secret-store
  publisher returns \<open>published = False\<close> and no error and leaves the state of the world as it
  was; this holds for every underlying publisher, so none of its writes takes place.
\<close>

theorem secret_store_publish_no_destination:
  "PublishConnectionDetailsTo ow = None \<Longrightarrow>
   SecretStoreConnectionPublisher_PublishConnection p ow c s = ((False, None), s)"
  by (simp add: SecretStoreConnectionPublisher_PublishConnection_def)

theorem secret_store_publish_no_destination_witness:
  "SecretStoreConnectionPublisher_PublishConnection
     \<lparr>publisher = \<lambda>ow data log. (None, log @ [data]), filter' = []\<rparr>
     \<lparr>ObjectKind = \<lparr>Group = '''', Version = ''v1'', Kind = ''XR''\<rparr>, UID = ''u1'',
      PublishConnectionDetailsTo = None\<rparr>
     (Some (fmupd ''host'' (Bytes ''h'') fmempty)) []
   = ((False, None), [])"
  using secret_store_publish_no_destination
    [of "\<lparr>ObjectKind = \<lparr>Group = '''', Version = ''v1'', Kind = ''XR''\<rparr>, UID = ''u1'',
          PublishConnectionDetailsTo = None\<rparr>"
        "\<lparr>publisher = \<lambda>ow data log. (None, log @ [data]), filter' = []\<rparr>"
        "Some (fmupd ''host'' (Bytes ''h'') fmempty)" "[]"]
  by simp

text \<open>
  C3: for an owner with a publish destination, the secret-store publisher calls the
  underlying publisher once, with a payload that holds exactly the entries of the details
  whose key is in the filter (every entry when the filter is empty); it returns
  \<open>published = True\<close> and no error when that call returns no error, and the wrapped error
  otherwise. With the filter \<open>[host, port]\<close> and the details
  \<open>{host: h, port: 5432, password: p}\<close> the payload is \<open>{host: h, port: 5432}\<close>; with the
  empty filter it holds all three entries.
\<close>

theorem secret_store_publish_filters:
  assumes "PublishConnectionDetailsTo ow \<noteq> None"
  shows "(\<exists>data.
            (\<forall>k. fmlookup data k =
                   (if filter' p = [] \<or> k \<in> set (filter' p) then fmlookup (entries c) k
                    else None))
          \<and> SecretStoreConnectionPublisher_PublishConnection p ow c s =
              (case publisher p ow (Some data) s of
                 (None, s') \<Rightarrow> ((True, None), s')
               | (Some err, s') \<Rightarrow> ((False, Some (Wrapped err errPublish)), s')))
     \<and> (filter' p = [''host'', ''port''] \<longrightarrow>
          SecretStoreConnectionPublisher_PublishConnection p ow
            (Some (fmupd ''host'' (Bytes ''h'') (fmupd ''port'' (Bytes ''5432'')
                    (fmupd ''password'' (Bytes ''p'') fmempty)))) s =
            (case publisher p ow
                    (Some (fmupd ''host'' (Bytes ''h'') (fmupd ''port'' (Bytes ''5432'') fmempty)))
                    s of
               (None, s') \<Rightarrow> ((True, None), s')
             | (Some err, s') \<Rightarrow> ((False, Some (Wrapped err errPublish)), s')))
     \<and> (filter' p = [] \<longrightarrow>
          SecretStoreConnectionPublisher_PublishConnection p ow
            (Some (fmupd ''host'' (Bytes ''h'') (fmupd ''port'' (Bytes ''5432'')
                    (fmupd ''password'' (Bytes ''p'') fmempty)))) s =
            (case publisher p ow
                    (Some (fmupd ''host'' (Bytes ''h'') (fmupd ''port'' (Bytes ''5432'')
                            (fmupd ''password'' (Bytes ''p'') fmempty))))
                    s of
               (None, s') \<Rightarrow> ((True, None), s')
             | (Some err, s') \<Rightarrow> ((False, Some (Wrapped err errPublish)), s')))"
proof -
  have run: "SecretStoreConnectionPublisher_PublishConnection p ow c s =
      (case publisher p ow (Some (filtered_data (filter' p) c)) s of
         (None, s') \<Rightarrow> ((True, None), s')
       | (Some err, s') \<Rightarrow> ((False, Some (Wrapped err errPublish)), s'))" for c
    using assms
    by (simp add: SecretStoreConnectionPublisher_PublishConnection_def Let_def Wrap_def
          split: prod.splits option.splits)
  have general: "\<forall>k. fmlookup (filtered_data (filter' p) c) k =
                   (if filter' p = [] \<or> k \<in> set (filter' p) then fmlookup (entries c) k
                    else None)"
    by (simp add: filtered_data_eq)
  have some: "filtered_data [''host'', ''port'']
                (Some (fmupd ''host'' (Bytes ''h'') (fmupd ''port'' (Bytes ''5432'')
                    (fmupd ''password'' (Bytes ''p'') fmempty))))
              = fmupd ''host'' (Bytes ''h'') (fmupd ''port'' (Bytes ''5432'') fmempty)"
    by (simp add: filtered_data_eq entries_def cong del: fmfilter_cong)
  have all: "filtered_data []
                (Some (fmupd ''host'' (Bytes ''h'') (fmupd ''port'' (Bytes ''5432'')
                    (fmupd ''password'' (Bytes ''p'') fmempty))))
              = fmupd ''host'' (Bytes ''h'') (fmupd ''port'' (Bytes ''5432'')
                    (fmupd ''password'' (Bytes ''p'') fmempty))"
    by (simp add: filtered_data_eq entries_def cong del: fmfilter_cong)
  have first: "\<exists>data.
            (\<forall>k. fmlookup data k =
                   (if filter' p = [] \<or> k \<in> set (filter' p) then fmlookup (entries c) k
                    else None))
          \<and> SecretStoreConnectionPublisher_PublishConnection p ow c s =
              (case publisher p ow (Some data) s of
                 (None, s') \<Rightarrow> ((True, None), s')
               | (Some err, s') \<Rightarrow> ((False, Some (Wrapped err errPublish)), s'))"
    using general run [of c] by (intro exI [of _ "filtered_data (filter' p) c"] conjI)
  show ?thesis
    using first by (simp add: run some all)
qed

theorem secret_store_publish_filters_witness:
  "SecretStoreConnectionPublisher_PublishConnection
     \<lparr>publisher = \<lambda>ow data log. (None, log @ [data]), filter' = [''host'', ''port'']\<rparr>
     \<lparr>ObjectKind = \<lparr>Group = '''', Version = ''v1'', Kind = ''XR''\<rparr>, UID = ''u1'',
      PublishConnectionDetailsTo =
        Some \<lparr>PublishConnectionDetailsTo.Name = ''u1'',
              SecretStoreConfigRef = Some \<lparr>Reference.Name = ''vault''\<rparr>\<rparr>\<rparr>
     (Some (fmupd ''host'' (Bytes ''h'') (fmupd ''port'' (Bytes ''5432'')
             (fmupd ''password'' (Bytes ''p'') fmempty)))) []
   = ((True, None),
      [Some (fmupd ''host'' (Bytes ''h'') (fmupd ''port'' (Bytes ''5432'') fmempty))])"
proof -
  let ?p = "\<lparr>publisher = \<lambda>ow data log. (None, log @ [data]),
             filter' = [''host'', ''port'']\<rparr>
            :: ConnectionDetails list SecretStoreConnectionPublisher"
  let ?ow = "\<lparr>ObjectKind = \<lparr>Group = '''', Version = ''v1'', Kind = ''XR''\<rparr>, UID = ''u1'',
      PublishConnectionDetailsTo =
        Some \<lparr>PublishConnectionDetailsTo.Name = ''u1'',
              SecretStoreConfigRef = Some \<lparr>Reference.Name = ''vault''\<rparr>\<rparr>\<rparr>"
  have dest: "PublishConnectionDetailsTo ?ow \<noteq> None" by simp
  show ?thesis
    using secret_store_publish_filters [OF dest, of ?p _ "[]"] by simp
qed

subsection \<open>Claims about the configurator\<close>

text \<open>
  C8: when the API version or the kind of the composite resource differs from the
  composite type reference of the composition, \<open>Configure\<close> returns the error
  \<^verbatim>\<open>errCompositionNotCompatible\<close>, the composite resource is as it was, and the state of
  the API server is as it was: nothing is set and nothing is persisted.
\<close>

theorem configure_mismatch:
  "APIVersion (CompositeTypeRef (Spec cmp)) \<noteq> fst (ToAPIVersionAndKind (ObjectKind cp))
   \<or> TypeReference.Kind (CompositeTypeRef (Spec cmp)) \<noteq> snd (ToAPIVersionAndKind (ObjectKind cp))
   \<Longrightarrow> Configure update cp cmp s = ((Some (New errCompositionNotCompatible), cp), s)"
  by (auto simp: Configure_def split: prod.splits)

theorem configure_mismatch_witness:
  "Configure (\<lambda>cp log. (None, log @ [cp]))
     \<lparr>ObjectKind = \<lparr>Group = ''example.org'', Version = ''v1'', Kind = ''XDatabase''\<rparr>,
      UID = ''u1'', PublishConnectionDetailsTo = None\<rparr>
     \<lparr>Spec = \<lparr>CompositeTypeRef = \<lparr>APIVersion = ''example.org/v1'', Kind = ''XCache''\<rparr>,
              PublishConnectionDetailsWithStoreConfig = Some ''vault''\<rparr>\<rparr>
     []
   = ((Some (New errCompositionNotCompatible),
       \<lparr>ObjectKind = \<lparr>Group = ''example.org'', Version = ''v1'', Kind = ''XDatabase''\<rparr>,
        UID = ''u1'', PublishConnectionDetailsTo = None\<rparr>), [])"
proof -
  let ?cp = "\<lparr>ObjectKind = \<lparr>Group = ''example.org'', Version = ''v1'', Kind = ''XDatabase''\<rparr>,
      UID = ''u1'', PublishConnectionDetailsTo = None\<rparr>"
  let ?cmp = "\<lparr>Spec = \<lparr>CompositeTypeRef = \<lparr>APIVersion = ''example.org/v1'', Kind = ''XCache''\<rparr>,
              PublishConnectionDetailsWithStoreConfig = Some ''vault''\<rparr>\<rparr>"
  have differs: "APIVersion (CompositeTypeRef (Spec ?cmp)) \<noteq> fst (ToAPIVersionAndKind (ObjectKind ?cp))
     \<or> TypeReference.Kind (CompositeTypeRef (Spec ?cmp)) \<noteq> snd (ToAPIVersionAndKind (ObjectKind ?cp))"
    by (simp add: ToAPIVersionAndKind_def)
  show ?thesis
    by (rule configure_mismatch [OF differs])
qed

text \<open>
  C7: for a composite resource of the composition's type with no publish destination, and
  a composition that declares a store config, \<open>Configure\<close> sets the destination whose name
  is the UID of the resource and whose store reference is the declared store config, and
  hands the resource to \<^verbatim>\<open>client.Update\<close>, whose error it returns wrapped. A second call,
  on the resource the first call left and in any state, returns no error and changes
  neither the resource nor the state. A resource that has a destination is never changed.
\<close>

theorem configure_initialises_once:
  "(APIVersion (CompositeTypeRef (Spec cmp)) = fst (ToAPIVersionAndKind (ObjectKind cp))
    \<and> TypeReference.Kind (CompositeTypeRef (Spec cmp)) = snd (ToAPIVersionAndKind (ObjectKind cp))
    \<and> PublishConnectionDetailsTo cp = None
    \<and> PublishConnectionDetailsWithStoreConfig (Spec cmp) = Some store \<longrightarrow>
      (let cp' = cp\<lparr>PublishConnectionDetailsTo :=
                      Some \<lparr>PublishConnectionDetailsTo.Name = UID cp,
                            SecretStoreConfigRef = Some \<lparr>Reference.Name = store\<rparr>\<rparr>\<rparr>
       in Configure update cp cmp s =
            ((Wrap (fst (update cp' s)) errUpdateComposite, cp'), snd (update cp' s))
          \<and> (\<forall>s2. Configure update cp' cmp s2 = ((None, cp'), s2))))
   \<and> (PublishConnectionDetailsTo cp \<noteq> None \<longrightarrow>
        snd (fst (Configure update cp cmp s)) = cp \<and> snd (Configure update cp cmp s) = s)"
  by (auto simp: Configure_def Let_def split: prod.splits)

theorem configure_initialises_once_witness:
  "Configure (\<lambda>cp log. (None, log @ [cp]))
     \<lparr>ObjectKind = \<lparr>Group = ''example.org'', Version = ''v1'', Kind = ''XDatabase''\<rparr>,
      UID = ''u1'', PublishConnectionDetailsTo = None\<rparr>
     \<lparr>Spec = \<lparr>CompositeTypeRef = \<lparr>APIVersion = ''example.org/v1'', Kind = ''XDatabase''\<rparr>,
              PublishConnectionDetailsWithStoreConfig = Some ''vault''\<rparr>\<rparr>
     []
   = ((None,
       \<lparr>ObjectKind = \<lparr>Group = ''example.org'', Version = ''v1'', Kind = ''XDatabase''\<rparr>,
        UID = ''u1'',
        PublishConnectionDetailsTo =
          Some \<lparr>PublishConnectionDetailsTo.Name = ''u1'',
                SecretStoreConfigRef = Some \<lparr>Reference.Name = ''vault''\<rparr>\<rparr>\<rparr>),
      [\<lparr>ObjectKind = \<lparr>Group = ''example.org'', Version = ''v1'', Kind = ''XDatabase''\<rparr>,
        UID = ''u1'',
        PublishConnectionDetailsTo =
          Some \<lparr>PublishConnectionDetailsTo.Name = ''u1'',
                SecretStoreConfigRef = Some \<lparr>Reference.Name = ''vault''\<rparr>\<rparr>\<rparr>])
   \<and> Configure (\<lambda>cp log. (None, log @ [cp]))
     \<lparr>ObjectKind = \<lparr>Group = ''example.org'', Version = ''v1'', Kind = ''XDatabase''\<rparr>,
      UID = ''u1'',
      PublishConnectionDetailsTo =
        Some \<lparr>PublishConnectionDetailsTo.Name = ''u1'',
              SecretStoreConfigRef = Some \<lparr>Reference.Name = ''vault''\<rparr>\<rparr>\<rparr>
     \<lparr>Spec = \<lparr>CompositeTypeRef = \<lparr>APIVersion = ''example.org/v1'', Kind = ''XDatabase''\<rparr>,
              PublishConnectionDetailsWithStoreConfig = Some ''vault''\<rparr>\<rparr>
     []
   = ((None,
       \<lparr>ObjectKind = \<lparr>Group = ''example.org'', Version = ''v1'', Kind = ''XDatabase''\<rparr>,
        UID = ''u1'',
        PublishConnectionDetailsTo =
          Some \<lparr>PublishConnectionDetailsTo.Name = ''u1'',
                SecretStoreConfigRef = Some \<lparr>Reference.Name = ''vault''\<rparr>\<rparr>\<rparr>), [])"
proof -
  let ?cp = "\<lparr>ObjectKind = \<lparr>Group = ''example.org'', Version = ''v1'', Kind = ''XDatabase''\<rparr>,
      UID = ''u1'', PublishConnectionDetailsTo = None\<rparr>"
  let ?cmp = "\<lparr>Spec = \<lparr>CompositeTypeRef = \<lparr>APIVersion = ''example.org/v1'', Kind = ''XDatabase''\<rparr>,
              PublishConnectionDetailsWithStoreConfig = Some ''vault''\<rparr>\<rparr>"
  let ?update = "(\<lambda>cp log. (None, log @ [cp])) :: Resource list client_Update"
  have h: "APIVersion (CompositeTypeRef (Spec ?cmp)) = fst (ToAPIVersionAndKind (ObjectKind ?cp))
    \<and> TypeReference.Kind (CompositeTypeRef (Spec ?cmp)) = snd (ToAPIVersionAndKind (ObjectKind ?cp))
    \<and> PublishConnectionDetailsTo ?cp = None
    \<and> PublishConnectionDetailsWithStoreConfig (Spec ?cmp) = Some ''vault''"
    by (simp add: ToAPIVersionAndKind_def)
  show ?thesis
    using configure_initialises_once [of ?cmp ?cp "''vault''" ?update "[]"] h
    by (simp add: Let_def Wrap_def)
qed

subsection \<open>Claims about the secret-store fetcher\<close>

lemma len_map_0: "len_map m = 0 \<longleftrightarrow> m = fmempty"
proof -
  have "fmdom m = {||} \<longleftrightarrow> m = fmempty"
    by (metis fmdom_empty fmrestrict_fset_dom fmrestrict_fset_null)
  then show ?thesis by (simp add: len_map_def)
qed

lemma fetch_loop_nothing_to_copy:
  "\<forall>d\<in>set ds. cdt d = ConnectionDetailTypeFromConnectionSecretKey \<longrightarrow>
      (\<forall>k. FromConnectionSecretKey d = Some k \<longrightarrow> index_bytes data k = NilSlice) \<Longrightarrow>
   fetch_loop cdt data ds conn = Inr conn \<or> (\<exists>e. fetch_loop cdt data ds conn = Inl e)"
proof (induction ds)
  case Nil
  then show ?case by simp
next
  case (Cons d ds)
  then show ?case
    by (cases "cdt d") (auto split: option.splits)
qed

lemma fetch_loop_missing_key:
  "d \<in> set ds \<Longrightarrow> cdt d = ConnectionDetailTypeFromConnectionSecretKey \<Longrightarrow>
   FromConnectionSecretKey d = None \<Longrightarrow>
   fetch_loop cdt data ds conn =
     Inl (Errorf errFmtConnDetailKey ConnectionDetailTypeFromConnectionSecretKey)"
proof (induction ds arbitrary: conn)
  case Nil
  then show ?case by simp
next
  case (Cons x ds)
  show ?case
  proof (cases "x = d")
    case True
    with Cons.prems show ?thesis by simp
  next
    case False
    with Cons.prems have "d \<in> set ds" by simp
    then have "fetch_loop cdt data ds conn' =
        Inl (Errorf errFmtConnDetailKey ConnectionDetailTypeFromConnectionSecretKey)" for conn'
      using Cons.prems(2,3) by (rule Cons.IH)
    then show ?thesis
      by (cases "cdt x") (simp_all add: Let_def split: option.splits)
  qed
qed

text \<open>
  C2: for a composed resource that is a connection secret owner, the secret-store fetcher
  returns. With the store payload \<open>{user: alice, pass: x}\<close> and a template of one
  from-secret-key declaration with the source key \<open>user\<close> and the name \<open>username\<close> it
  returns exactly \<open>{username: alice}\<close> and no error. For every template, the details it
  returns are never the empty mapping; they are nil when the store payload is nil, and
  when the payload has no value (no entry, or the nil slice) at the source key of every
  from-secret-key declaration of the template.
\<close>

theorem secret_store_fetch_details:
  assumes "as_owner cd = Some so"
  shows "(fetcher so =
            (Some (fmupd ''user'' (Bytes ''alice'') (fmupd ''pass'' (Bytes ''x'') fmempty)), None)
          \<and> ConnectionDetails t = [d]
          \<and> cdt d = ConnectionDetailTypeFromConnectionSecretKey
          \<and> FromConnectionSecretKey d = Some ''user''
          \<and> ConnectionDetail.Name d = Some ''username'' \<longrightarrow>
          SecretStoreConnectionDetailsFetcher_FetchConnectionDetails cdt as_owner fetcher cd t =
            Returns (Some (fmupd ''username'' (Bytes ''alice'') fmempty), None))
     \<and> (\<exists>details err.
           SecretStoreConnectionDetailsFetcher_FetchConnectionDetails cdt as_owner fetcher cd t = Returns (details, err)
         \<and> details \<noteq> Some fmempty
         \<and> (fst (fetcher so) = None \<longrightarrow> details = None)
         \<and> ((\<forall>d\<in>set (ConnectionDetails t).
                cdt d = ConnectionDetailTypeFromConnectionSecretKey \<longrightarrow>
                (\<forall>k. FromConnectionSecretKey d = Some k \<longrightarrow>
                     index_bytes (fst (fetcher so)) k = NilSlice)) \<longrightarrow>
             details = None))"
proof -
  obtain data ferr where f: "fetcher so = (data, ferr)" by (cases "fetcher so")
  let ?r = "case ferr of
              Some err \<Rightarrow> (None, Wrap (Some err) errFetchSecret)
            | None \<Rightarrow>
                (case fetch_loop cdt data (ConnectionDetails t) fmempty of
                   Inl e \<Rightarrow> (None, Some e)
                 | Inr conn \<Rightarrow> if len_map conn = 0 then (None, None) else (Some conn, None))"
  have run: "SecretStoreConnectionDetailsFetcher_FetchConnectionDetails cdt as_owner fetcher cd t = Returns ?r"
    by (simp add: SecretStoreConnectionDetailsFetcher_FetchConnectionDetails_def assms f split: option.splits)
  have not_empty: "fst ?r \<noteq> Some fmempty"
    by (auto simp: len_map_0 split: option.splits sum.splits)
  have lacks: "fst ?r = None"
    if "\<forall>d\<in>set (ConnectionDetails t).
          cdt d = ConnectionDetailTypeFromConnectionSecretKey \<longrightarrow>
          (\<forall>k. FromConnectionSecretKey d = Some k \<longrightarrow> index_bytes data k = NilSlice)"
    using fetch_loop_nothing_to_copy [OF that, of fmempty]
    by (auto simp: len_map_0 split: option.splits sum.splits)
  have absent: "fst ?r = None" if "data = None"
    by (rule lacks) (simp add: that index_bytes_def)
  have example: "SecretStoreConnectionDetailsFetcher_FetchConnectionDetails cdt as_owner fetcher cd t =
            Returns (Some (fmupd ''username'' (Bytes ''alice'') fmempty), None)"
    if "fetcher so =
            (Some (fmupd ''user'' (Bytes ''alice'') (fmupd ''pass'' (Bytes ''x'') fmempty)), None)"
      "ConnectionDetails t = [d]" "cdt d = ConnectionDetailTypeFromConnectionSecretKey"
      "FromConnectionSecretKey d = Some ''user''" "ConnectionDetail.Name d = Some ''username''"
    using that
    by (simp add: SecretStoreConnectionDetailsFetcher_FetchConnectionDetails_def assms index_bytes_def len_map_0)
  have general: "\<exists>details err.
           SecretStoreConnectionDetailsFetcher_FetchConnectionDetails cdt as_owner fetcher cd t = Returns (details, err)
         \<and> details \<noteq> Some fmempty
         \<and> (fst (fetcher so) = None \<longrightarrow> details = None)
         \<and> ((\<forall>d\<in>set (ConnectionDetails t).
                cdt d = ConnectionDetailTypeFromConnectionSecretKey \<longrightarrow>
                (\<forall>k. FromConnectionSecretKey d = Some k \<longrightarrow>
                     index_bytes (fst (fetcher so)) k = NilSlice)) \<longrightarrow>
             details = None)"
    using run not_empty lacks absent
    by (intro exI [of _ "fst ?r"] exI [of _ "snd ?r"]) (simp add: f)
  show ?thesis
    using example general by blast
qed

theorem secret_store_fetch_details_witness:
  "SecretStoreConnectionDetailsFetcher_FetchConnectionDetails connectionDetailType Some
     (\<lambda>so. (Some (fmupd ''user'' (Bytes ''alice'') (fmupd ''pass'' (Bytes ''x'') fmempty)), None))
     ()
     \<lparr>ConnectionDetails =
        [\<lparr>ConnectionDetail.Name = Some ''username'',
          Type = Some ConnectionDetailTypeFromConnectionSecretKey,
          FromConnectionSecretKey = Some ''user''\<rparr>]\<rparr>
   = Returns (Some (fmupd ''username'' (Bytes ''alice'') fmempty), None)
   \<and> (\<exists>err. SecretStoreConnectionDetailsFetcher_FetchConnectionDetails connectionDetailType Some
          (\<lambda>so. (None, None)) ()
          \<lparr>ConnectionDetails =
             [\<lparr>ConnectionDetail.Name = Some ''username'',
               Type = Some ConnectionDetailTypeFromConnectionSecretKey,
               FromConnectionSecretKey = Some ''user''\<rparr>]\<rparr>
        = Returns (None, err))
   \<and> (\<exists>err. SecretStoreConnectionDetailsFetcher_FetchConnectionDetails connectionDetailType Some
          (\<lambda>so. (Some (fmupd ''pass'' (Bytes ''x'') fmempty), None)) ()
          \<lparr>ConnectionDetails =
             [\<lparr>ConnectionDetail.Name = Some ''username'',
               Type = Some ConnectionDetailTypeFromConnectionSecretKey,
               FromConnectionSecretKey = Some ''user''\<rparr>]\<rparr>
        = Returns (None, err))"
proof -
  let ?d = "\<lparr>ConnectionDetail.Name = Some ''username'',
          Type = Some ConnectionDetailTypeFromConnectionSecretKey,
          FromConnectionSecretKey = Some ''user''\<rparr>"
  let ?t = "\<lparr>ConnectionDetails = [?d]\<rparr>"
  let ?f1 = "(\<lambda>so. (Some (fmupd ''user'' (Bytes ''alice'') (fmupd ''pass'' (Bytes ''x'') fmempty)),
                     None)) :: unit managed_ConnectionDetailsFetcher"
  let ?f2 = "(\<lambda>so. (None, None)) :: unit managed_ConnectionDetailsFetcher"
  let ?f3 = "(\<lambda>so. (Some (fmupd ''pass'' (Bytes ''x'') fmempty), None))
               :: unit managed_ConnectionDetailsFetcher"
  have owner: "Some () = Some ()" by simp
  have a: "SecretStoreConnectionDetailsFetcher_FetchConnectionDetails connectionDetailType Some ?f1 () ?t
             = Returns (Some (fmupd ''username'' (Bytes ''alice'') fmempty), None)"
    using secret_store_fetch_details
            [where as_owner = Some and cd = "()" and so = "()" and fetcher = ?f1
               and t = ?t and d = ?d and cdt = connectionDetailType, OF owner]
    by (simp add: connectionDetailType_def)
  have b: "\<exists>err. SecretStoreConnectionDetailsFetcher_FetchConnectionDetails connectionDetailType Some ?f2 () ?t
             = Returns (None, err)"
    using secret_store_fetch_details
            [where as_owner = Some and cd = "()" and so = "()" and fetcher = ?f2
               and t = ?t and d = ?d and cdt = connectionDetailType, OF owner]
    by auto
  have c: "\<exists>err. SecretStoreConnectionDetailsFetcher_FetchConnectionDetails connectionDetailType Some ?f3 () ?t
             = Returns (None, err)"
    using secret_store_fetch_details
            [where as_owner = Some and cd = "()" and so = "()" and fetcher = ?f3
               and t = ?t and d = ?d and cdt = connectionDetailType, OF owner]
    by (auto simp: index_bytes_def)
  show ?thesis using a b c by blast
qed

text \<open>
  C9 says that every template with a from-secret-key declaration that lacks its key makes
  the fetcher fail with the missing-key error. The store is read first: when that read
  fails, the fetcher returns the wrapped store error, whatever the template holds.
\<close>

theorem secret_store_fetch_missing_key_counterexample:
  "SecretStoreConnectionDetailsFetcher_FetchConnectionDetails connectionDetailType Some
     (\<lambda>so. (None, Some (External ''store unavailable''))) ()
     \<lparr>ConnectionDetails =
        [\<lparr>ConnectionDetail.Name = None,
          Type = Some ConnectionDetailTypeFromConnectionSecretKey,
          FromConnectionSecretKey = None\<rparr>]\<rparr>
   = Returns (None, Some (Wrapped (External ''store unavailable'') errFetchSecret))
   \<and> Wrapped (External ''store unavailable'') errFetchSecret
       \<noteq> Errorf errFmtConnDetailKey ConnectionDetailTypeFromConnectionSecretKey"
  by (simp add: SecretStoreConnectionDetailsFetcher_FetchConnectionDetails_def Wrap_def)

text \<open>
  C9, amended: when the composed resource is a connection secret owner and the store read
  returns no error, a template that holds a from-secret-key declaration with no key
  makes the fetcher return nil details and the error built from
  \<^verbatim>\<open>errFmtConnDetailKey\<close> and the type of the declaration.
\<close>

theorem secret_store_fetch_missing_key:
  assumes "as_owner cd = Some so" and "fetcher so = (data, None)"
    and "d \<in> set (ConnectionDetails t)"
    and "cdt d = ConnectionDetailTypeFromConnectionSecretKey"
    and "FromConnectionSecretKey d = None"
  shows "SecretStoreConnectionDetailsFetcher_FetchConnectionDetails cdt as_owner fetcher cd t =
           Returns (None,
             Some (Errorf errFmtConnDetailKey ConnectionDetailTypeFromConnectionSecretKey))"
  by (simp add: SecretStoreConnectionDetailsFetcher_FetchConnectionDetails_def assms(1,2)
        fetch_loop_missing_key [where cdt = cdt and d = d, OF assms(3,4,5)])

theorem secret_store_fetch_missing_key_witness:
  "SecretStoreConnectionDetailsFetcher_FetchConnectionDetails connectionDetailType Some
     (\<lambda>so. (Some (fmupd ''user'' (Bytes ''alice'') fmempty), None)) ()
     \<lparr>ConnectionDetails =
        [\<lparr>ConnectionDetail.Name = Some ''username'',
          Type = Some ConnectionDetailTypeFromConnectionSecretKey,
          FromConnectionSecretKey = Some ''user''\<rparr>,
         \<lparr>ConnectionDetail.Name = Some ''password'',
          Type = Some ConnectionDetailTypeFromConnectionSecretKey,
          FromConnectionSecretKey = None\<rparr>]\<rparr>
   = Returns (None,
       Some (Errorf errFmtConnDetailKey ConnectionDetailTypeFromConnectionSecretKey))"
proof -
  let ?ok = "\<lparr>ConnectionDetail.Name = Some ''username'',
          Type = Some ConnectionDetailTypeFromConnectionSecretKey,
          FromConnectionSecretKey = Some ''user''\<rparr>"
  let ?bad = "\<lparr>ConnectionDetail.Name = Some ''password'',
          Type = Some ConnectionDetailTypeFromConnectionSecretKey,
          FromConnectionSecretKey = None\<rparr>"
  let ?t = "\<lparr>ConnectionDetails = [?ok, ?bad]\<rparr>"
  let ?f = "(\<lambda>so. (Some (fmupd ''user'' (Bytes ''alice'') fmempty), None))
              :: unit managed_ConnectionDetailsFetcher"
  have owner: "Some () = Some ()" by simp
  have read: "?f () = (Some (fmupd ''user'' (Bytes ''alice'') fmempty), None)" by simp
  have mem: "?bad \<in> set (ConnectionDetails ?t)" by simp
  have tp: "connectionDetailType ?bad = ConnectionDetailTypeFromConnectionSecretKey"
    by (simp add: connectionDetailType_def)
  have key: "FromConnectionSecretKey ?bad = None" by simp
  show ?thesis
    by (rule secret_store_fetch_missing_key
          [where as_owner = Some and cd = "()" and so = "()" and fetcher = ?f
             and cdt = connectionDetailType and d = ?bad and t = ?t,
           OF owner read mem tp key])
qed

end
